theory Spec2Isabelle
  imports Complex_Main
begin

section \<open>Data model\<close>

text \<open>
  The pipeline of \<^verbatim>\<open>RFM_Analysis.py\<close> (and of its twin
  \<^verbatim>\<open>Customer_Segmentation_RFM_Analysis.py\<close>, which differs in comments and
  messages only) is a script over pandas data frames. A frame is modelled as the list
  of its rows, a column as the list of its values, a missing value (NaN, NaT) as
  \<open>None\<close>. Prices, monetary sums and quantiles are exact rationals, an
  idealisation of the script's floating-point numbers; an invoice timestamp is a
  whole number of minutes, the resolution of the format \<^verbatim>\<open>%d/%m/%Y %H:%M\<close>.
  The columns of the cleaned frame are written in lower case, to tell them from the
  columns of the raw frame; the added column \<^verbatim>\<open>TotalSales\<close> keeps its name.
\<close>

record raw_tx =
  Customer_ID :: "int option"
  Invoice :: string
  Quantity :: int
  Price :: rat
  InvoiceDate :: string

record clean_tx =
  customer :: int
  invoice :: string
  quantity :: int
  price :: rat
  TotalSales :: rat
  invoice_date :: int

record customer_metrics =
  cust :: int
  Recency :: int
  Frequency :: int
  Monetary :: rat

record rfm_row =
  metrics :: customer_metrics
  R_Score :: int
  F_Score :: int
  M_Score :: int

text \<open>What pandas raises in the scoring step, named after the messages.\<close>

datatype error =
    BinEdgesNotUnique
  | BinsNotMonotonic
  | BinLabelsCount
  | CategoricalMedian

section \<open>Step 2: cleaning\<close>

text \<open>
  \<^verbatim>\<open>pd.to_datetime(..., format='%d/%m/%Y %H:%M', errors='coerce')\<close> is library code:
  it is the parameter \<open>to_datetime\<close>, which gives the minute a string denotes
  under the fixed format, or \<open>None\<close> (NaT) for a string that does not parse.
  The four filters run in the order of the script; the coercion and the
  \<^verbatim>\<open>dropna(subset=['InvoiceDate'])\<close> after it are one pass. No step raises.
\<close>

definition to_clean :: "(string \<Rightarrow> int option) \<Rightarrow> raw_tx \<Rightarrow> clean_tx option" where
  "to_clean to_datetime r =
     (case to_datetime (InvoiceDate r) of
        None \<Rightarrow> None
      | Some t \<Rightarrow>
          Some \<lparr>customer = the (Customer_ID r), invoice = Invoice r,
                quantity = Quantity r, price = Price r,
                TotalSales = of_int (Quantity r) * Price r,
                invoice_date = t\<rparr>)"

definition df_clean :: "(string \<Rightarrow> int option) \<Rightarrow> raw_tx list \<Rightarrow> clean_tx list" where
  "df_clean to_datetime df =
     (let d1 = filter (\<lambda>r. Customer_ID r \<noteq> None) df;
          d2 = filter (\<lambda>r. Quantity r > 0) d1;
          d3 = filter (\<lambda>r. Price r > 0) d2
      in List.map_filter (to_clean to_datetime) d3)"

section \<open>Step 3: RFM metrics\<close>

text \<open>
  The snapshot date is the latest invoice minute plus one day (1440 minutes); the
  maximum of an empty column is NaT, and NaT plus a day is NaT: nothing is raised.
  \<^verbatim>\<open>groupby('Customer ID')\<close> makes one group per distinct customer, in ascending
  order of the key; an empty frame has no group, so the aggregation functions are never
  called on it. \<^verbatim>\<open>.days\<close> of a time difference is its floor in days,
  \<^verbatim>\<open>nunique\<close> counts distinct values.
\<close>

definition snapshot_date :: "clean_tx list \<Rightarrow> int option" where
  "snapshot_date d =
     (if d = [] then None else Some (Max (set (map invoice_date d)) + 1440))"

definition agg :: "int \<Rightarrow> int \<Rightarrow> clean_tx list \<Rightarrow> customer_metrics" where
  "agg snapshot c g =
     \<lparr>cust = c,
      Recency = (snapshot - Max (set (map invoice_date g))) div 1440,
      Frequency = int (length (remdups (map invoice g))),
      Monetary = sum_list (map TotalSales g)\<rparr>"

definition rfm :: "clean_tx list \<Rightarrow> customer_metrics list" where
  "rfm d =
     (case snapshot_date d of
        None \<Rightarrow> []
      | Some snapshot \<Rightarrow>
          map (\<lambda>c. agg snapshot c (filter (\<lambda>t. customer t = c) d))
              (sort (remdups (map customer d))))"

section \<open>Step 4: RFM scores\<close>

subsection \<open>The pandas binning primitives\<close>

text \<open>
  \<^verbatim>\<open>Series.quantile(q)\<close> with the default linear interpolation, on a non-empty
  column and for \<open>q\<close> between 0 and 1 (the script passes 0, 1/4, 1/2, 3/4 and 1
  only): the value at position \<open>q * (n - 1)\<close> of the sorted column, interpolated
  between its two neighbours.
\<close>

definition quantile :: "rat list \<Rightarrow> rat \<Rightarrow> rat" where
  "quantile xs q =
     (let v = sort xs;
          n = length xs;
          h = of_nat (n - 1) * q;
          lo = nat \<lfloor>h\<rfloor>;
          hi = min (lo + 1) (n - 1);
          gamma = h - of_nat lo
      in v ! lo + (v ! hi - v ! lo) * gamma)"

text \<open>The index of the lower neighbour, named for the proofs.\<close>

definition qpos :: "rat list \<Rightarrow> rat \<Rightarrow> nat" where
  "qpos xs q = nat \<lfloor>of_nat (length xs - 1) * q\<rfloor>"

text \<open>
  \<^verbatim>\<open>bins.searchsorted(x, side='left')\<close> on increasing edges: the number of edges
  strictly below the value.
\<close>

definition searchsorted_left :: "'a::linorder list \<Rightarrow> 'a \<Rightarrow> nat" where
  "searchsorted_left bins v = length (takeWhile (\<lambda>b. b < v) bins)"

text \<open>
  The shared core of \<^verbatim>\<open>pd.cut\<close> and \<^verbatim>\<open>pd.qcut\<close> with right-closed
  intervals and the default \<^verbatim>\<open>duplicates='raise'\<close>: repeated edges raise
  ValueError (Bin edges must be unique); a value gets the label of the interval it
  lies in, and no label (NaN) when it lies outside all of them.
\<close>

definition bins_to_cuts ::
  "'a::linorder list \<Rightarrow> 'a list \<Rightarrow> int list \<Rightarrow> bool \<Rightarrow> error + int option list" where
  "bins_to_cuts x bins labels include_lowest =
     (if \<not> distinct bins \<and> length bins \<noteq> 2 then Inl BinEdgesNotUnique
      else if length labels \<noteq> length bins - 1 then Inl BinLabelsCount
      else Inr (map (\<lambda>v.
             let ids = (if include_lowest \<and> v = hd bins then 1
                        else searchsorted_left bins v)
             in if ids = length bins \<or> ids = 0 then None
                else Some (labels ! (ids - 1))) x))"

text \<open>
  \<^verbatim>\<open>pd.cut\<close> with explicit edges first requires them to be non-decreasing
  (ValueError: bins must increase monotonically).
\<close>

definition cut ::
  "'a::linorder list \<Rightarrow> 'a list \<Rightarrow> int list \<Rightarrow> bool \<Rightarrow> error + int option list" where
  "cut x bins labels include_lowest =
     (if \<not> sorted bins then Inl BinsNotMonotonic
      else bins_to_cuts x bins labels include_lowest)"

text \<open>
  \<^verbatim>\<open>pd.qcut(x, q=4, labels)\<close>: the edges are the quantiles at 0, 1/4, 1/2, 3/4
  and 1, and the lowest edge is included. On an empty column all five edges are NaN,
  a single distinct value, which raises as repeated edges do.
\<close>

definition qcut_bins :: "rat list \<Rightarrow> rat list" where
  "qcut_bins x = map (quantile x) [0, 1/4, 1/2, 3/4, 1]"

definition qcut :: "rat list \<Rightarrow> int list \<Rightarrow> error + int option list" where
  "qcut x labels =
     (if x = [] then Inl BinEdgesNotUnique
      else bins_to_cuts x (qcut_bins x) labels True)"

subsection \<open>The three score columns\<close>

text \<open>
  The columns \<^verbatim>\<open>rfm['Recency']\<close>, \<^verbatim>\<open>rfm['Frequency']\<close> and
  \<^verbatim>\<open>rfm['Monetary']\<close>. Recency is a column of whole days; its quantiles are
  fractions, so the column is read as fractions where it meets them.
\<close>

definition recency_column :: "customer_metrics list \<Rightarrow> rat list" where
  "recency_column tbl = map (\<lambda>c. of_int (Recency c)) tbl"

definition frequency_column :: "customer_metrics list \<Rightarrow> int list" where
  "frequency_column tbl = map Frequency tbl"

definition monetary_column :: "customer_metrics list \<Rightarrow> rat list" where
  "monetary_column tbl = map Monetary tbl"

definition R_Score_column :: "customer_metrics list \<Rightarrow> error + int option list" where
  "R_Score_column tbl = qcut (recency_column tbl) [4, 3, 2, 1]"

text \<open>
  The minimum and maximum of a column are taken on a non-empty table only: on an empty
  one the script has already stopped at the Recency column, one line earlier.
\<close>

definition freq_bins :: "int list \<Rightarrow> int list" where
  "freq_bins fs = [Min (set fs) - 1, 1, 2, 3, Max (set fs)]"

definition monetary_bins :: "rat list \<Rightarrow> rat list" where
  "monetary_bins ms =
     [Min (set ms) - 1, quantile ms (1/4), quantile ms (1/2), quantile ms (3/4),
      Max (set ms)]"

definition F_Score_column :: "customer_metrics list \<Rightarrow> error + int option list" where
  "F_Score_column tbl =
     cut (frequency_column tbl) (freq_bins (frequency_column tbl)) [1, 2, 3, 4] True"

definition M_Score_column :: "customer_metrics list \<Rightarrow> error + int option list" where
  "M_Score_column tbl =
     cut (monetary_column tbl) (monetary_bins (monetary_column tbl)) [1, 2, 3, 4] True"

text \<open>
  The loop that fills missing scores. The score columns are categorical (they carry
  the labels given to \<^verbatim>\<open>cut\<close> and \<^verbatim>\<open>qcut\<close>), and pandas defines no
  \<^verbatim>\<open>median\<close> reduction for a categorical column: the call raises TypeError. So
  a column without a missing score passes unchanged, and one with a missing score
  makes the step fail.
\<close>

definition fill_missing :: "int option list \<Rightarrow> error + int option list" where
  "fill_missing column =
     (if None \<in> set column then Inl CategoricalMedian else Inr column)"

definition score_rows ::
  "customer_metrics list \<Rightarrow> int option list \<Rightarrow> int option list \<Rightarrow> int option list
     \<Rightarrow> rfm_row list" where
  "score_rows tbl r f m =
     map (\<lambda>(c, rs, fs, ms).
            \<lparr>metrics = c, R_Score = the rs, F_Score = the fs, M_Score = the ms\<rparr>)
         (zip tbl (zip r (zip f m)))"

text \<open>
  The scoring step in the order of the script: the Recency column, then the Frequency
  and Monetary columns, then the loop over the three columns. The first error ends
  the run.
\<close>

definition assign_scores :: "customer_metrics list \<Rightarrow> error + rfm_row list" where
  "assign_scores tbl =
     (case R_Score_column tbl of Inl e \<Rightarrow> Inl e | Inr r0 \<Rightarrow>
      case F_Score_column tbl of Inl e \<Rightarrow> Inl e | Inr f0 \<Rightarrow>
      case M_Score_column tbl of Inl e \<Rightarrow> Inl e | Inr m0 \<Rightarrow>
      case fill_missing r0 of Inl e \<Rightarrow> Inl e | Inr r \<Rightarrow>
      case fill_missing f0 of Inl e \<Rightarrow> Inl e | Inr f \<Rightarrow>
      case fill_missing m0 of Inl e \<Rightarrow> Inl e | Inr m \<Rightarrow>
        Inr (score_rows tbl r f m))"

section \<open>Step 5: customer segments\<close>

definition get_segment :: "rfm_row \<Rightarrow> string" where
  "get_segment rfm_row =
     (let r_score = R_Score rfm_row;
          f_score = F_Score rfm_row;
          m_score = M_Score rfm_row
      in if r_score = 4 \<and> f_score = 4 \<and> m_score = 4 then ''Champions''
         else if r_score = 4 \<and> f_score \<ge> 3 then ''Loyal Customers''
         else if r_score = 4 \<and> f_score = 1 then ''New Customers''
         else if r_score = 3 then ''Potential Loyalists''
         else if r_score = 2 then ''At Risk Customers''
         else if r_score = 1 \<and> f_score \<ge> 2 then ''Cant Lose Them''
         else if r_score = 1 then ''Lost Customers''
         else ''Others'')"

text \<open>
  The specification's wording of the classifier, kept apart from the code's: an ordered
  list of guarded rules over the score triple, the first matching rule wins, and a
  triple that no rule matches goes to the default group.
\<close>

definition spec_rules :: "((int \<times> int \<times> int \<Rightarrow> bool) \<times> string) list" where
  "spec_rules =
     [(\<lambda>(r, f, m). r = 4 \<and> f = 4 \<and> m = 4, ''Champions''),
      (\<lambda>(r, f, m). r = 4 \<and> f \<ge> 3, ''Loyal Customers''),
      (\<lambda>(r, f, m). r = 4 \<and> f = 1, ''New Customers''),
      (\<lambda>(r, f, m). r = 3, ''Potential Loyalists''),
      (\<lambda>(r, f, m). r = 2, ''At Risk Customers''),
      (\<lambda>(r, f, m). r = 1 \<and> f \<ge> 2, ''Cant Lose Them''),
      (\<lambda>(r, f, m). r = 1, ''Lost Customers'')]"

fun first_match :: "(('a \<Rightarrow> bool) \<times> string) list \<Rightarrow> 'a \<Rightarrow> string" where
  "first_match [] t = ''Others''"
| "first_match ((guard, label) # rules) t =
     (if guard t then label else first_match rules t)"

definition spec_segment :: "int \<times> int \<times> int \<Rightarrow> string" where
  "spec_segment t = first_match spec_rules t"

text \<open>
  The eight group names: the labels of the specification, which are also the keys of
  the script's table of marketing suggestions.
\<close>

definition customer_groups :: "string list" where
  "customer_groups =
     [''Champions'', ''Loyal Customers'', ''New Customers'', ''Potential Loyalists'',
      ''At Risk Customers'', ''Cant Lose Them'', ''Lost Customers'', ''Others'']"

section \<open>Sample inputs\<close>

text \<open>
  A finite stand-in for the library's parser, on the date strings of the sample
  below: minutes counted from 01/12/2010 08:26.
\<close>

definition sample_to_datetime :: "string \<Rightarrow> int option" where
  "sample_to_datetime s =
     (if s = ''01/12/2010 08:26'' then Some 0
      else if s = ''09/12/2011 12:50'' then Some 537384
      else None)"

text \<open>
  Eleven raw rows: one invoice of five lines for customer 17850, two invoices of one
  line for customer 13047, and four rows that the cleaning drops (no customer, a
  return, a free item, a date in another format).
\<close>

definition sample_raw :: "raw_tx list" where
  "sample_raw =
     [\<lparr>Customer_ID = Some 17850, Invoice = ''536365'', Quantity = 6, Price = 51/20,
       InvoiceDate = ''01/12/2010 08:26''\<rparr>,
      \<lparr>Customer_ID = Some 17850, Invoice = ''536365'', Quantity = 6, Price = 339/100,
       InvoiceDate = ''01/12/2010 08:26''\<rparr>,
      \<lparr>Customer_ID = Some 17850, Invoice = ''536365'', Quantity = 8, Price = 11/4,
       InvoiceDate = ''01/12/2010 08:26''\<rparr>,
      \<lparr>Customer_ID = Some 17850, Invoice = ''536365'', Quantity = 6, Price = 339/100,
       InvoiceDate = ''01/12/2010 08:26''\<rparr>,
      \<lparr>Customer_ID = Some 17850, Invoice = ''536365'', Quantity = 6, Price = 339/100,
       InvoiceDate = ''01/12/2010 08:26''\<rparr>,
      \<lparr>Customer_ID = Some 13047, Invoice = ''536367'', Quantity = 32, Price = 169/100,
       InvoiceDate = ''01/12/2010 08:26''\<rparr>,
      \<lparr>Customer_ID = Some 13047, Invoice = ''581587'', Quantity = 4, Price = 83/20,
       InvoiceDate = ''09/12/2011 12:50''\<rparr>,
      \<lparr>Customer_ID = None, Invoice = ''536414'', Quantity = 56, Price = 1,
       InvoiceDate = ''01/12/2010 08:26''\<rparr>,
      \<lparr>Customer_ID = Some 14527, Invoice = ''C536379'', Quantity = - 1, Price = 55/2,
       InvoiceDate = ''01/12/2010 08:26''\<rparr>,
      \<lparr>Customer_ID = Some 15823, Invoice = ''536420'', Quantity = 3, Price = 0,
       InvoiceDate = ''01/12/2010 08:26''\<rparr>,
      \<lparr>Customer_ID = Some 12583, Invoice = ''536370'', Quantity = 24, Price = 15/4,
       InvoiceDate = ''2010-12-01 08:26''\<rparr>]"

definition sample_clean :: "clean_tx list" where
  "sample_clean = df_clean sample_to_datetime sample_raw"

text \<open>The metrics of one customer, for a scored row.\<close>

definition sample_metrics :: customer_metrics where
  "sample_metrics = \<lparr>cust = 17850, Recency = 2, Frequency = 3, Monetary = 5000\<rparr>"

text \<open>
  Customer tables of four customers. In the first the edges of all three metrics
  strictly increase; in each of the others the edges of one metric do not.
\<close>

definition pop_ok :: "customer_metrics list" where
  "pop_ok =
     [\<lparr>cust = 12346, Recency = 1, Frequency = 1, Monetary = 20\<rparr>,
      \<lparr>cust = 12347, Recency = 2, Frequency = 2, Monetary = 40\<rparr>,
      \<lparr>cust = 12348, Recency = 30, Frequency = 3, Monetary = 100\<rparr>,
      \<lparr>cust = 12349, Recency = 400, Frequency = 5, Monetary = 5000\<rparr>]"

definition pop_same_recency :: "customer_metrics list" where
  "pop_same_recency =
     [\<lparr>cust = 12346, Recency = 7, Frequency = 1, Monetary = 20\<rparr>,
      \<lparr>cust = 12347, Recency = 7, Frequency = 2, Monetary = 40\<rparr>,
      \<lparr>cust = 12348, Recency = 7, Frequency = 3, Monetary = 100\<rparr>,
      \<lparr>cust = 12349, Recency = 7, Frequency = 5, Monetary = 5000\<rparr>]"

definition pop_max3 :: "customer_metrics list" where
  "pop_max3 =
     [\<lparr>cust = 12346, Recency = 1, Frequency = 1, Monetary = 20\<rparr>,
      \<lparr>cust = 12347, Recency = 2, Frequency = 2, Monetary = 40\<rparr>,
      \<lparr>cust = 12348, Recency = 30, Frequency = 3, Monetary = 100\<rparr>,
      \<lparr>cust = 12349, Recency = 400, Frequency = 3, Monetary = 5000\<rparr>]"

definition pop_min2 :: "customer_metrics list" where
  "pop_min2 =
     [\<lparr>cust = 12346, Recency = 1, Frequency = 2, Monetary = 20\<rparr>,
      \<lparr>cust = 12347, Recency = 2, Frequency = 3, Monetary = 40\<rparr>,
      \<lparr>cust = 12348, Recency = 30, Frequency = 4, Monetary = 100\<rparr>,
      \<lparr>cust = 12349, Recency = 400, Frequency = 5, Monetary = 5000\<rparr>]"


section \<open>The segment classifier\<close>

lemma get_segment_unfold:
  "get_segment row = spec_segment (R_Score row, F_Score row, M_Score row)"
  by (simp add: get_segment_def spec_segment_def spec_rules_def Let_def)

text \<open>
  C1. On every score triple with components in 1..4 the classifier returns the label of
  the first matching rule of the specification's ordered list, which is one of the eight
  fixed groups; being a function of the triple alone, equal triples get equal groups;
  and the default group is reached exactly at R = 4, F = 2.
\<close>

theorem get_segment_first_match:
  assumes "R_Score row \<in> {1, 2, 3, 4}"
      and "F_Score row \<in> {1, 2, 3, 4}"
      and "M_Score row \<in> {1, 2, 3, 4}"
  shows "get_segment row = spec_segment (R_Score row, F_Score row, M_Score row)
       \<and> get_segment row \<in> set customer_groups
       \<and> (get_segment row = ''Others'' \<longleftrightarrow> R_Score row = 4 \<and> F_Score row = 2)
       \<and> (R_Score row' = R_Score row \<and> F_Score row' = F_Score row
            \<and> M_Score row' = M_Score row \<longrightarrow> get_segment row' = get_segment row)"
proof -
  have first: "get_segment row = spec_segment (R_Score row, F_Score row, M_Score row)"
    by (rule get_segment_unfold)
  have label: "get_segment row \<in> set customer_groups"
    by (simp add: get_segment_def customer_groups_def Let_def)
  have others: "get_segment row = ''Others'' \<longleftrightarrow> R_Score row = 4 \<and> F_Score row = 2"
    using assms by (auto simp add: get_segment_def Let_def)
  have pure: "R_Score row' = R_Score row \<and> F_Score row' = F_Score row
      \<and> M_Score row' = M_Score row \<longrightarrow> get_segment row' = get_segment row"
    by (simp add: get_segment_def Let_def)
  from first label others pure show ?thesis by blast
qed

theorem get_segment_first_match_witness:
  "get_segment \<lparr>metrics = sample_metrics, R_Score = 4, F_Score = 3, M_Score = 4\<rparr>
     = ''Loyal Customers''
   \<and> spec_segment (4, 3, 4) = ''Loyal Customers''
   \<and> ''Loyal Customers'' \<in> set customer_groups
   \<and> get_segment \<lparr>metrics = sample_metrics, R_Score = 4, F_Score = 3, M_Score = 4\<rparr>
       \<noteq> ''Others''"
  using get_segment_first_match
    [of "\<lparr>metrics = sample_metrics, R_Score = 4, F_Score = 3, M_Score = 4\<rparr>"]
  by (simp add: get_segment_def spec_segment_def spec_rules_def customer_groups_def Let_def)

section \<open>The cleaning stage\<close>

lemma to_clean_Some:
  "to_clean p r = Some c \<longleftrightarrow>
     (\<exists>t. p (InvoiceDate r) = Some t \<and>
        c = \<lparr>customer = the (Customer_ID r), invoice = Invoice r,
                quantity = Quantity r, price = Price r,
                TotalSales = of_int (Quantity r) * Price r,
                invoice_date = t\<rparr>)"
  by (auto simp add: to_clean_def split: option.splits)

lemma df_clean_filter:
  "df_clean p df =
     map (\<lambda>r. the (to_clean p r))
       (filter (\<lambda>r. Customer_ID r \<noteq> None \<and> 0 < Quantity r \<and> 0 < Price r
                  \<and> p (InvoiceDate r) \<noteq> None) df)"
proof (induction df)
  case Nil
  show ?case by (simp add: df_clean_def map_filter_simps)
next
  case (Cons r df)
  then show ?case
    by (auto simp add: df_clean_def Let_def map_filter_simps to_clean_def split: option.splits)
qed

text \<open>
  C8. Every record that survives the cleaning comes from a raw record with a customer
  identifier, a positive quantity and a positive unit price, carries the revenue
  quantity times unit price, which is positive, and a timestamp that is the parse of
  the raw date under the fixed format. The cleaned frame is exactly the sequence of
  the raw records that meet all four conditions, in their order: every other record is
  dropped, and the stage, which has no failure outcome, goes on with the rest.
\<close>

theorem df_clean_invariant:
  "(\<forall>c \<in> set (df_clean to_datetime df). \<exists>r \<in> set df.
        Customer_ID r = Some (customer c) \<and> invoice c = Invoice r
      \<and> quantity c = Quantity r \<and> price c = Price r
      \<and> 0 < quantity c \<and> 0 < price c
      \<and> TotalSales c = of_int (quantity c) * price c \<and> 0 < TotalSales c
      \<and> to_datetime (InvoiceDate r) = Some (invoice_date c))
   \<and> df_clean to_datetime df =
       map (\<lambda>r. the (to_clean to_datetime r))
         (filter (\<lambda>r. Customer_ID r \<noteq> None \<and> 0 < Quantity r \<and> 0 < Price r
                    \<and> to_datetime (InvoiceDate r) \<noteq> None) df)"
proof (intro conjI ballI)
  fix c
  assume "c \<in> set (df_clean to_datetime df)"
  then obtain r where r: "r \<in> set df"
    and ok: "Customer_ID r \<noteq> None" "0 < Quantity r" "0 < Price r"
    and dt: "to_datetime (InvoiceDate r) \<noteq> None"
    and c: "c = the (to_clean to_datetime r)"
    unfolding df_clean_filter by auto
  from dt obtain t where t: "to_datetime (InvoiceDate r) = Some t" by blast
  from ok(1) obtain k where k: "Customer_ID r = Some k" by blast
  from c t k have c': "c = \<lparr>customer = k, invoice = Invoice r,
      quantity = Quantity r, price = Price r,
      TotalSales = of_int (Quantity r) * Price r, invoice_date = t\<rparr>"
    by (simp add: to_clean_def)
  from ok(2,3) have "0 < (of_int (Quantity r) :: rat) * Price r" by simp
  with r k t ok(2,3) c'
  show "\<exists>r \<in> set df.
        Customer_ID r = Some (customer c) \<and> invoice c = Invoice r
      \<and> quantity c = Quantity r \<and> price c = Price r
      \<and> 0 < quantity c \<and> 0 < price c
      \<and> TotalSales c = of_int (quantity c) * price c \<and> 0 < TotalSales c
      \<and> to_datetime (InvoiceDate r) = Some (invoice_date c)"
    by (intro bexI [of _ r]) simp_all
next
  show "df_clean to_datetime df =
       map (\<lambda>r. the (to_clean to_datetime r))
         (filter (\<lambda>r. Customer_ID r \<noteq> None \<and> 0 < Quantity r \<and> 0 < Price r
                    \<and> to_datetime (InvoiceDate r) \<noteq> None) df)"
    by (rule df_clean_filter)
qed

theorem df_clean_invariant_witness:
  "length sample_raw = 11
   \<and> map customer (df_clean sample_to_datetime sample_raw)
       = [17850, 17850, 17850, 17850, 17850, 13047, 13047]
   \<and> map TotalSales (df_clean sample_to_datetime sample_raw)
       = [153/10, 1017/50, 22, 1017/50, 1017/50, 1352/25, 83/5]
   \<and> map invoice_date (df_clean sample_to_datetime sample_raw)
       = [0, 0, 0, 0, 0, 0, 537384]
   \<and> list_all (\<lambda>c. 0 < TotalSales c) (df_clean sample_to_datetime sample_raw)"
proof -
  have rows: "length sample_raw = 11
   \<and> map customer (df_clean sample_to_datetime sample_raw)
       = [17850, 17850, 17850, 17850, 17850, 13047, 13047]
   \<and> map TotalSales (df_clean sample_to_datetime sample_raw)
       = [153/10, 1017/50, 22, 1017/50, 1017/50, 1352/25, 83/5]
   \<and> map invoice_date (df_clean sample_to_datetime sample_raw)
       = [0, 0, 0, 0, 0, 0, 537384]"
    by code_simp
  have "\<forall>c \<in> set (df_clean sample_to_datetime sample_raw). 0 < TotalSales c"
    using df_clean_invariant [of sample_to_datetime sample_raw] by blast
  then have "list_all (\<lambda>c. 0 < TotalSales c) (df_clean sample_to_datetime sample_raw)"
    by (simp only: list_all_iff)
  with rows show ?thesis by blast
qed

section \<open>The aggregation stage\<close>

lemma rfm_Nil: "rfm [] = []"
  by (simp add: rfm_def snapshot_date_def)

lemma rfm_nonempty:
  "d \<noteq> [] \<Longrightarrow> rfm d =
     map (\<lambda>c. agg (Max (set (map invoice_date d)) + 1440) c (filter (\<lambda>t. customer t = c) d))
         (sort (remdups (map customer d)))"
  by (simp add: rfm_def snapshot_date_def)

lemma rfm_row_cases:
  assumes "m \<in> set (rfm d)"
  shows "d \<noteq> [] \<and> cust m \<in> customer ` set d \<and>
         m = agg (Max (set (map invoice_date d)) + 1440) (cust m)
               (filter (\<lambda>t. customer t = cust m) d)"
proof -
  from assms have ne: "d \<noteq> []" by (auto simp add: rfm_Nil)
  from assms ne obtain c where c: "c \<in> customer ` set d"
    and m: "m = agg (Max (set (map invoice_date d)) + 1440) c (filter (\<lambda>t. customer t = c) d)"
    by (auto simp add: rfm_nonempty)
  from m have "cust m = c" by (simp add: agg_def)
  with ne c m show ?thesis by simp
qed

lemma cust_rfm: "map cust (rfm d) = sort (remdups (map customer d))"
proof (cases "d = []")
  case True then show ?thesis by (simp add: rfm_Nil)
next
  case False then show ?thesis by (simp add: rfm_nonempty agg_def comp_def)
qed

text \<open>
  C2, as the code has it. On zero cleaned transactions the aggregation raises nothing:
  the snapshot date is undefined and the customer table is empty. The table is empty
  for no other input.
\<close>

theorem rfm_empty_iff:
  "snapshot_date [] = None \<and> (rfm d = [] \<longleftrightarrow> d = [])"
proof (cases "d = []")
  case True
  then show ?thesis by (simp add: rfm_Nil snapshot_date_def)
next
  case False
  then have "set (sort (remdups (map customer d))) \<noteq> {}" by simp
  then have "sort (remdups (map customer d)) \<noteq> []" by (metis set_empty)
  with False show ?thesis by (simp add: rfm_nonempty snapshot_date_def)
qed

text \<open>
  C2, as the specification states it, asks for an empty-input error. The aggregation
  has no failure outcome: on the empty frame it returns the empty table.
\<close>

theorem rfm_empty_input_counterexample:
  "rfm [] = []"
  by (rule rfm_Nil)

text \<open>
  C7. The table has one row per customer of the cleaned transactions, and the
  Frequency of a row is the number of distinct invoice identifiers among that
  customer's transactions, however many lines an invoice has.
\<close>

theorem frequency_distinct_invoices:
  "distinct (map cust (rfm d)) \<and> set (map cust (rfm d)) = customer ` set d
   \<and> (\<forall>m \<in> set (rfm d).
         Frequency m = int (card {i. \<exists>t \<in> set d. customer t = cust m \<and> invoice t = i}))"
proof (intro conjI ballI)
  show "distinct (map cust (rfm d))" by (simp add: cust_rfm)
  show "set (map cust (rfm d)) = customer ` set d" by (simp add: cust_rfm)
next
  fix m
  assume m: "m \<in> set (rfm d)"
  let ?g = "filter (\<lambda>t. customer t = cust m) d"
  from rfm_row_cases [OF m]
  have "m = agg (Max (set (map invoice_date d)) + 1440) (cust m) ?g" by simp
  then have "Frequency m = int (length (remdups (map invoice ?g)))"
    by (metis agg_def customer_metrics.select_convs(3))
  also have "\<dots> = int (card (set (map invoice ?g)))"
    by (simp only: length_remdups_card_conv)
  also have "set (map invoice ?g) = {i. \<exists>t \<in> set d. customer t = cust m \<and> invoice t = i}"
    by auto
  finally show "Frequency m =
      int (card {i. \<exists>t \<in> set d. customer t = cust m \<and> invoice t = i})" .
qed

theorem frequency_distinct_invoices_witness:
  "length (filter (\<lambda>t. customer t = 17850) sample_clean) = 5
   \<and> rfm sample_clean =
       [\<lparr>cust = 13047, Recency = 1, Frequency = 2, Monetary = 1767/25\<rparr>,
        \<lparr>cust = 17850, Recency = 374, Frequency = 1, Monetary = 2458/25\<rparr>]
   \<and> int (card {i. \<exists>t \<in> set sample_clean. customer t = 17850 \<and> invoice t = i}) = 1"
proof -
  have rows: "length (filter (\<lambda>t. customer t = 17850) sample_clean) = 5
   \<and> rfm sample_clean =
       [\<lparr>cust = 13047, Recency = 1, Frequency = 2, Monetary = 1767/25\<rparr>,
        \<lparr>cust = 17850, Recency = 374, Frequency = 1, Monetary = 2458/25\<rparr>]"
    by code_simp
  then have "\<lparr>cust = 17850, Recency = 374, Frequency = 1, Monetary = 2458/25\<rparr>
      \<in> set (rfm sample_clean)"
    by simp
  with frequency_distinct_invoices [of sample_clean]
  have "Frequency \<lparr>cust = 17850, Recency = 374, Frequency = 1, Monetary = 2458/25\<rparr> =
      int (card {i. \<exists>t \<in> set sample_clean.
        customer t = cust \<lparr>cust = 17850, Recency = 374, Frequency = 1, Monetary = 2458/25\<rparr>
        \<and> invoice t = i})"
    by blast
  then have "int (card {i. \<exists>t \<in> set sample_clean. customer t = 17850 \<and> invoice t = i}) = 1"
    by simp
  with rows show ?thesis by blast
qed

text \<open>
  C9. The snapshot date is one day after the latest invoice timestamp, hence after
  every invoice timestamp; so the Recency of every customer of the table is at least
  one day.
\<close>

theorem recency_positive:
  "(\<forall>t \<in> set d. \<exists>s. snapshot_date d = Some s \<and> invoice_date t + 1440 \<le> s)
   \<and> (\<forall>m \<in> set (rfm d). 1 \<le> Recency m)"
proof (intro conjI ballI)
  fix t
  assume t: "t \<in> set d"
  then have "d \<noteq> []" by auto
  moreover from t have "invoice_date t \<le> Max (set (map invoice_date d))" by simp
  ultimately show "\<exists>s. snapshot_date d = Some s \<and> invoice_date t + 1440 \<le> s"
    by (simp add: snapshot_date_def)
next
  fix m
  assume m: "m \<in> set (rfm d)"
  let ?g = "filter (\<lambda>t. customer t = cust m) d"
  let ?snap = "Max (set (map invoice_date d)) + 1440"
  from rfm_row_cases [OF m] have c: "cust m \<in> customer ` set d"
    and m': "m = agg ?snap (cust m) ?g" by simp_all
  from c have gne: "set (map invoice_date ?g) \<noteq> {}" by auto
  have sub: "set (map invoice_date ?g) \<subseteq> set (map invoice_date d)" by auto
  have "Max (set (map invoice_date ?g)) \<le> Max (set (map invoice_date d))"
    by (rule Max_mono [OF sub gne]) simp
  then have "1440 \<le> ?snap - Max (set (map invoice_date ?g))" by simp
  then have "1 \<le> (?snap - Max (set (map invoice_date ?g))) div 1440"
    by (simp add: pos_imp_zdiv_pos_iff)
  moreover from m' have "Recency m = (?snap - Max (set (map invoice_date ?g))) div 1440"
    by (metis agg_def customer_metrics.select_convs(2))
  ultimately show "1 \<le> Recency m" by simp
qed

theorem recency_positive_witness:
  "snapshot_date sample_clean = Some 538824
   \<and> map Recency (rfm sample_clean) = [1, 374]
   \<and> list_all (\<lambda>m. 1 \<le> Recency m) (rfm sample_clean)"
proof -
  have rows: "snapshot_date sample_clean = Some 538824
      \<and> map Recency (rfm sample_clean) = [1, 374]"
    by code_simp
  have "\<forall>m \<in> set (rfm sample_clean). 1 \<le> Recency m"
    using recency_positive [of sample_clean] by blast
  then have "list_all (\<lambda>m. 1 \<le> Recency m) (rfm sample_clean)"
    by (simp only: list_all_iff)
  with rows show ?thesis by blast
qed

section \<open>Quantiles\<close>

lemma quantile_qpos:
  "quantile xs q =
     sort xs ! qpos xs q
       + (sort xs ! min (qpos xs q + 1) (length xs - 1) - sort xs ! qpos xs q)
         * (of_nat (length xs - 1) * q - of_nat (qpos xs q))"
  by (simp add: quantile_def qpos_def Let_def)

lemma qpos_less:
  assumes "xs \<noteq> []" and "0 \<le> q" and "q \<le> 1"
  shows "qpos xs q < length xs"
proof -
  have "of_nat (length xs - 1) * q \<le> of_nat (length xs - 1) * (1::rat)"
    using assms(3) by (intro mult_left_mono) simp_all
  then have "\<lfloor>of_nat (length xs - 1) * q\<rfloor> \<le> int (length xs - 1)"
    by (simp add: floor_le_iff)
  then have "qpos xs q \<le> length xs - 1" by (simp add: qpos_def)
  with assms(1) show ?thesis by (cases xs) simp_all
qed

lemma qpos_frac:
  assumes "0 \<le> q"
  shows "0 \<le> of_nat (length xs - 1) * q - of_nat (qpos xs q)"
    and "of_nat (length xs - 1) * q - of_nat (qpos xs q) < (1::rat)"
proof -
  let ?h = "of_nat (length xs - 1) * q"
  have h0: "0 \<le> ?h" using assms by simp
  then have f0: "0 \<le> \<lfloor>?h\<rfloor>" by simp
  then have eq: "(of_nat (qpos xs q) :: rat) = of_int \<lfloor>?h\<rfloor>"
    by (simp add: qpos_def)
  show "0 \<le> ?h - of_nat (qpos xs q)" unfolding eq by simp
  show "?h - of_nat (qpos xs q) < 1" unfolding eq by linarith
qed

lemma qpos_mono:
  assumes "0 \<le> q1" and "q1 \<le> q2"
  shows "qpos xs q1 \<le> qpos xs q2"
proof -
  have "of_nat (length xs - 1) * q1 \<le> of_nat (length xs - 1) * q2"
    using assms(2) by (intro mult_left_mono) simp_all
  then have "\<lfloor>of_nat (length xs - 1) * q1\<rfloor> \<le> \<lfloor>of_nat (length xs - 1) * q2\<rfloor>"
    by (rule floor_mono)
  then show ?thesis by (simp add: qpos_def nat_mono)
qed

lemma sort_nth_mono:
  "i \<le> j \<Longrightarrow> j < length xs \<Longrightarrow> sort xs ! i \<le> sort xs ! j"
  by (rule sorted_nth_mono) simp_all

lemma quantile_between:
  assumes "xs \<noteq> []" and "0 \<le> q" and "q \<le> 1"
  shows "sort xs ! qpos xs q \<le> quantile xs q"
    and "quantile xs q \<le> sort xs ! min (qpos xs q + 1) (length xs - 1)"
proof -
  let ?lo = "qpos xs q"
  let ?hi = "min (?lo + 1) (length xs - 1)"
  let ?g = "of_nat (length xs - 1) * q - of_nat ?lo"
  let ?d = "sort xs ! ?hi - sort xs ! ?lo"
  from qpos_less [OF assms] have lo: "?lo < length xs" .
  then have "?lo \<le> ?hi" and "?hi < length xs" by simp_all
  then have d: "0 \<le> ?d" using sort_nth_mono [of ?lo ?hi xs] by simp
  from qpos_frac [OF assms(2), of xs] have g0: "0 \<le> ?g" and g1: "?g < 1" by simp_all
  have "0 \<le> ?d * ?g" using d g0 by simp
  then show "sort xs ! ?lo \<le> quantile xs q" by (simp add: quantile_qpos)
  have "?d * ?g \<le> ?d * 1" using d g1 by (intro mult_left_mono) simp_all
  then show "quantile xs q \<le> sort xs ! ?hi" by (simp add: quantile_qpos)
qed

lemma quantile_bounds:
  assumes "xs \<noteq> []" and "0 \<le> q" and "q \<le> 1"
  shows "Min (set xs) \<le> quantile xs q" and "quantile xs q \<le> Max (set xs)"
proof -
  from qpos_less [OF assms] have lo: "qpos xs q < length xs" .
  then have "sort xs ! qpos xs q \<in> set (sort xs)" by (intro nth_mem) simp
  then have "Min (set xs) \<le> sort xs ! qpos xs q" by simp
  with quantile_between(1) [OF assms] show "Min (set xs) \<le> quantile xs q" by simp
  from lo have "min (qpos xs q + 1) (length xs - 1) < length (sort xs)" by simp
  then have "sort xs ! min (qpos xs q + 1) (length xs - 1) \<in> set (sort xs)" by (rule nth_mem)
  then have "sort xs ! min (qpos xs q + 1) (length xs - 1) \<le> Max (set xs)" by simp
  with quantile_between(2) [OF assms] show "quantile xs q \<le> Max (set xs)" by simp
qed

lemma quantile_mono:
  assumes "xs \<noteq> []" and "0 \<le> q1" and "q1 \<le> q2" and "q2 \<le> 1"
  shows "quantile xs q1 \<le> quantile xs q2"
proof -
  have q1: "q1 \<le> 1" and q2: "0 \<le> q2" using assms by simp_all
  from qpos_mono [OF assms(2,3), of xs] have le: "qpos xs q1 \<le> qpos xs q2" .
  from qpos_less [OF assms(1) q2 assms(4)] have lt2: "qpos xs q2 < length xs" .
  show ?thesis
  proof (cases "qpos xs q1 = qpos xs q2")
    case True
    let ?lo = "qpos xs q2"
    let ?hi = "min (?lo + 1) (length xs - 1)"
    have "?lo \<le> ?hi" and "?hi < length xs" using lt2 by simp_all
    then have d: "0 \<le> sort xs ! ?hi - sort xs ! ?lo"
      using sort_nth_mono [of ?lo ?hi xs] by simp
    have "of_nat (length xs - 1) * q1 \<le> of_nat (length xs - 1) * q2"
      using assms(3) by (intro mult_left_mono) simp_all
    then have "of_nat (length xs - 1) * q1 - of_nat ?lo \<le> of_nat (length xs - 1) * q2 - of_nat ?lo"
      by simp
    then have "(sort xs ! ?hi - sort xs ! ?lo) * (of_nat (length xs - 1) * q1 - of_nat ?lo)
        \<le> (sort xs ! ?hi - sort xs ! ?lo) * (of_nat (length xs - 1) * q2 - of_nat ?lo)"
      using d by (intro mult_left_mono) simp_all
    then show ?thesis by (simp add: quantile_qpos True)
  next
    case False
    with le have lt: "qpos xs q1 < qpos xs q2" by simp
    then have "min (qpos xs q1 + 1) (length xs - 1) \<le> qpos xs q2" by simp
    then have "sort xs ! min (qpos xs q1 + 1) (length xs - 1) \<le> sort xs ! qpos xs q2"
      using lt2 by (intro sort_nth_mono) simp_all
    with quantile_between(2) [OF assms(1,2) q1] quantile_between(1) [OF assms(1) q2 assms(4)]
    show ?thesis by simp
  qed
qed

lemma quantile_0:
  assumes "xs \<noteq> []"
  shows "quantile xs 0 = Min (set xs)"
proof -
  have "quantile xs 0 = sort xs ! 0" by (simp add: quantile_qpos qpos_def)
  also have "\<dots> = Min (set xs)"
  proof (rule sym, rule Min_eqI)
    show "finite (set xs)" by simp
    show "sort xs ! 0 \<in> set xs" using assms
      by (metis length_greater_0_conv length_sort nth_mem set_sort)
    fix y assume "y \<in> set xs"
    then obtain i where "i < length (sort xs)" and "sort xs ! i = y"
      by (metis in_set_conv_nth set_sort)
    then show "sort xs ! 0 \<le> y" using sort_nth_mono [of 0 i xs] by simp
  qed
  finally show ?thesis .
qed

lemma quantile_1:
  assumes "xs \<noteq> []"
  shows "quantile xs 1 = Max (set xs)"
proof -
  from assms have n: "0 < length xs" by simp
  have "qpos xs 1 = length xs - 1" by (simp add: qpos_def)
  then have "quantile xs 1 = sort xs ! (length xs - 1)" by (simp add: quantile_qpos)
  also have "\<dots> = Max (set xs)"
  proof (rule sym, rule Max_eqI)
    show "finite (set xs)" by simp
    show "sort xs ! (length xs - 1) \<in> set xs" using n
      by (metis diff_less length_sort nth_mem set_sort zero_less_one)
    fix y assume "y \<in> set xs"
    then obtain i where "i < length (sort xs)" and "sort xs ! i = y"
      by (metis in_set_conv_nth set_sort)
    then show "y \<le> sort xs ! (length xs - 1)"
      using sort_nth_mono [of i "length xs - 1" xs] n by auto
  qed
  finally show ?thesis .
qed

section \<open>Binning\<close>

lemma bins_to_cuts_5:
  assumes "distinct [e0, e1, e2, e3, e4]"
  shows "bins_to_cuts x [e0, e1, e2, e3, e4] [l1, l2, l3, l4] True =
     Inr (map (\<lambda>v. if v = e0 then Some l1
                    else if \<not> e0 < v then None
                    else if \<not> e1 < v then Some l1
                    else if \<not> e2 < v then Some l2
                    else if \<not> e3 < v then Some l3
                    else if \<not> e4 < v then Some l4
                    else None) x)"
  using assms by (simp add: bins_to_cuts_def searchsorted_left_def Let_def)

lemma bins_to_cuts_5_dup:
  assumes "\<not> distinct [e0, e1, e2, e3, e4]"
  shows "bins_to_cuts x [e0, e1, e2, e3, e4] labels lowest = Inl BinEdgesNotUnique"
  using assms by (simp add: bins_to_cuts_def)

lemma bins_to_cuts_5_inside:
  assumes d: "distinct [e0, e1, e2, e3, e4]"
      and lo: "\<forall>v \<in> set x. e0 \<le> v" and hi: "\<forall>v \<in> set x. v \<le> e4"
      and e01: "e0 \<le> e1"
  shows "bins_to_cuts x [e0, e1, e2, e3, e4] [l1, l2, l3, l4] True =
     Inr (map (\<lambda>v. Some (if v \<le> e1 then l1 else if v \<le> e2 then l2
                           else if v \<le> e3 then l3 else l4)) x)"
proof -
  have "(if v = e0 then Some l1
         else if \<not> e0 < v then None
         else if \<not> e1 < v then Some l1
         else if \<not> e2 < v then Some l2
         else if \<not> e3 < v then Some l3
         else if \<not> e4 < v then Some l4
         else None)
       = Some (if v \<le> e1 then l1 else if v \<le> e2 then l2 else if v \<le> e3 then l3 else l4)"
    if "v \<in> set x" for v
  proof -
    from that lo hi have "e0 \<le> v" and "v \<le> e4" by simp_all
    with e01 show ?thesis by (auto simp add: not_less)
  qed
  then show ?thesis unfolding bins_to_cuts_5 [OF d] by simp
qed

lemma qcut_bins_eq:
  "xs \<noteq> [] \<Longrightarrow> qcut_bins xs =
     [Min (set xs), quantile xs (1/4), quantile xs (1/2), quantile xs (3/4), Max (set xs)]"
  by (simp add: qcut_bins_def quantile_0 quantile_1)

lemma qcut_cases:
  assumes "xs \<noteq> []"
  shows "qcut xs [l1, l2, l3, l4] =
     (if distinct (qcut_bins xs)
      then Inr (map (\<lambda>v. Some (if v \<le> quantile xs (1/4) then l1
                                else if v \<le> quantile xs (1/2) then l2
                                else if v \<le> quantile xs (3/4) then l3 else l4)) xs)
      else Inl BinEdgesNotUnique)"
proof (cases "distinct (qcut_bins xs)")
  case True
  then have d: "distinct [Min (set xs), quantile xs (1/4), quantile xs (1/2),
      quantile xs (3/4), Max (set xs)]"
    by (simp only: qcut_bins_eq [OF assms])
  have "Min (set xs) \<le> quantile xs (1/4)"
    by (rule quantile_bounds(1) [OF assms]) simp_all
  then have "bins_to_cuts xs [Min (set xs), quantile xs (1/4), quantile xs (1/2),
      quantile xs (3/4), Max (set xs)] [l1, l2, l3, l4] True =
     Inr (map (\<lambda>v. Some (if v \<le> quantile xs (1/4) then l1
                                else if v \<le> quantile xs (1/2) then l2
                                else if v \<le> quantile xs (3/4) then l3 else l4)) xs)"
    by (intro bins_to_cuts_5_inside [OF d]) simp_all
  with True assms show ?thesis by (simp add: qcut_def qcut_bins_eq)
next
  case False
  then have "\<not> distinct [Min (set xs), quantile xs (1/4), quantile xs (1/2),
      quantile xs (3/4), Max (set xs)]"
    unfolding qcut_bins_eq [OF assms] .
  then have "bins_to_cuts xs [Min (set xs), quantile xs (1/4), quantile xs (1/2),
      quantile xs (3/4), Max (set xs)] [l1, l2, l3, l4] True = Inl BinEdgesNotUnique"
    by (rule bins_to_cuts_5_dup)
  with False assms show ?thesis by (simp add: qcut_def qcut_bins_eq)
qed

lemma sorted_qcut_bins:
  assumes "xs \<noteq> []"
  shows "sorted (qcut_bins xs)"
proof -
  have a: "quantile xs 0 \<le> quantile xs (1/4)" by (rule quantile_mono [OF assms]) simp_all
  have b: "quantile xs (1/4) \<le> quantile xs (1/2)" by (rule quantile_mono [OF assms]) simp_all
  have c: "quantile xs (1/2) \<le> quantile xs (3/4)" by (rule quantile_mono [OF assms]) simp_all
  have d: "quantile xs (3/4) \<le> quantile xs 1" by (rule quantile_mono [OF assms]) simp_all
  from a b c d show ?thesis by (simp add: qcut_bins_def)
qed



lemma F_cut_cases:
  assumes "fs \<noteq> []"
  shows "cut fs (freq_bins fs) [l1, l2, l3, l4] True =
     (if Min (set fs) \<le> 1 \<and> 4 \<le> Max (set fs)
      then Inr (map (\<lambda>v. Some (if v \<le> 1 then l1 else if v = 2 then l2
                                else if v = 3 then l3 else l4)) fs)
      else if Min (set fs) \<le> 2 \<and> 3 \<le> Max (set fs) then Inl BinEdgesNotUnique
      else Inl BinsNotMonotonic)"
proof -
  let ?mn = "Min (set fs)" and ?mx = "Max (set fs)"
  have srt: "sorted (freq_bins fs) \<longleftrightarrow> ?mn \<le> 2 \<and> 3 \<le> ?mx"
    by (auto simp add: freq_bins_def)
  from assms have mnmx: "?mn \<le> ?mx" by (simp add: Min_le_iff)
  have dst: "distinct (freq_bins fs) \<longleftrightarrow> ?mn \<le> 1 \<and> 4 \<le> ?mx" if "sorted (freq_bins fs)"
    using that mnmx by (auto simp add: freq_bins_def)
  show ?thesis
  proof (cases "?mn \<le> 1 \<and> 4 \<le> ?mx")
    case True
    then have s: "sorted (freq_bins fs)" using srt by simp
    with True dst have d: "distinct [?mn - 1, 1, 2, 3, ?mx]" by (simp add: freq_bins_def)
    have lo: "\<forall>v \<in> set fs. ?mn - 1 \<le> v"
    proof
      fix v assume "v \<in> set fs"
      then have "?mn \<le> v" by simp
      then show "?mn - 1 \<le> v" by simp
    qed
    from True have e01: "?mn - 1 \<le> 1" by simp
    have "bins_to_cuts fs [?mn - 1, 1, 2, 3, ?mx] [l1, l2, l3, l4] True =
      Inr (map (\<lambda>v. Some (if v \<le> 1 then l1 else if v \<le> 2 then l2
                                else if v \<le> 3 then l3 else l4)) fs)"
      by (rule bins_to_cuts_5_inside [OF d lo _ e01]) simp
    also have "map (\<lambda>v. Some (if v \<le> 1 then l1 else if v \<le> 2 then l2
                                else if v \<le> 3 then l3 else l4)) fs
       = map (\<lambda>v. Some (if v \<le> 1 then l1 else if v = 2 then l2
                                else if v = 3 then l3 else l4)) fs"
      by (rule map_cong) auto
    finally show ?thesis using True s by (simp add: cut_def freq_bins_def)
  next
    case False
    show ?thesis
    proof (cases "sorted (freq_bins fs)")
      case True
      with dst False have "\<not> distinct [?mn - 1, 1, 2, 3, ?mx]" by (simp add: freq_bins_def)
      then have "bins_to_cuts fs [?mn - 1, 1, 2, 3, ?mx] [l1, l2, l3, l4] True
          = Inl BinEdgesNotUnique"
        by (rule bins_to_cuts_5_dup)
      with True False srt show ?thesis by (simp add: cut_def freq_bins_def)
    next
      case nsrt: False
      with False srt show ?thesis by (simp add: cut_def)
    qed
  qed
qed

section \<open>The score assigner\<close>

lemma R_Score_column_cases:
  assumes "tbl \<noteq> []"
  shows "R_Score_column tbl =
     (if distinct (qcut_bins (recency_column tbl))
      then Inr (map (\<lambda>c. Some
             (if of_int (Recency c) \<le> quantile (recency_column tbl) (1/4) then 4
              else if of_int (Recency c) \<le> quantile (recency_column tbl) (1/2) then 3
              else if of_int (Recency c) \<le> quantile (recency_column tbl) (3/4) then 2
              else 1)) tbl)
      else Inl BinEdgesNotUnique)"
proof -
  from assms have ne: "recency_column tbl \<noteq> []" by (simp add: recency_column_def)
  show ?thesis
    unfolding R_Score_column_def qcut_cases [OF ne]
    by (simp add: recency_column_def comp_def)
qed

lemma F_Score_column_cases:
  assumes "tbl \<noteq> []"
  shows "F_Score_column tbl =
     (if Min (set (frequency_column tbl)) \<le> 1 \<and> 4 \<le> Max (set (frequency_column tbl))
      then Inr (map (\<lambda>c. Some
             (if Frequency c \<le> 1 then 1 else if Frequency c = 2 then 2
              else if Frequency c = 3 then 3 else 4)) tbl)
      else if Min (set (frequency_column tbl)) \<le> 2 \<and> 3 \<le> Max (set (frequency_column tbl))
      then Inl BinEdgesNotUnique
      else Inl BinsNotMonotonic)"
proof -
  from assms have ne: "frequency_column tbl \<noteq> []" by (simp add: frequency_column_def)
  show ?thesis
    unfolding F_Score_column_def F_cut_cases [OF ne]
    by (simp add: frequency_column_def comp_def)
qed





text \<open>
  C3, as the code has it. On a non-empty table the five Recency cut points (the
  quantiles at 0, 1/4, 1/2, 3/4 and 1) are non-decreasing. When they are pairwise
  distinct, every customer gets a Recency score: 4 up to the first quartile, 3 up to
  the median, 2 up to the third quartile, 1 above it. When two of them coincide, the
  step raises ValueError and nobody gets a score.
\<close>

theorem R_Score_quartile_buckets:
  assumes "tbl \<noteq> []"
  shows "sorted (qcut_bins (recency_column tbl))
       \<and> R_Score_column tbl =
         (if distinct (qcut_bins (recency_column tbl))
          then Inr (map (\<lambda>c. Some
             (if of_int (Recency c) \<le> quantile (recency_column tbl) (1/4) then 4
              else if of_int (Recency c) \<le> quantile (recency_column tbl) (1/2) then 3
              else if of_int (Recency c) \<le> quantile (recency_column tbl) (3/4) then 2
              else 1)) tbl)
          else Inl BinEdgesNotUnique)"
proof
  from assms have "recency_column tbl \<noteq> []" by (simp add: recency_column_def)
  then show "sorted (qcut_bins (recency_column tbl))" by (rule sorted_qcut_bins)
  show "R_Score_column tbl =
         (if distinct (qcut_bins (recency_column tbl))
          then Inr (map (\<lambda>c. Some
             (if of_int (Recency c) \<le> quantile (recency_column tbl) (1/4) then 4
              else if of_int (Recency c) \<le> quantile (recency_column tbl) (1/2) then 3
              else if of_int (Recency c) \<le> quantile (recency_column tbl) (3/4) then 2
              else 1)) tbl)
          else Inl BinEdgesNotUnique)"
    by (rule R_Score_column_cases [OF assms])
qed

theorem R_Score_quartile_buckets_witness:
  "pop_ok \<noteq> []
   \<and> qcut_bins (recency_column pop_ok) = [1, 7/4, 16, 245/2, 400]
   \<and> R_Score_column pop_ok = Inr [Some 4, Some 3, Some 2, Some 1]"
proof -
  have ne: "pop_ok \<noteq> []" by (simp add: pop_ok_def)
  have bins: "qcut_bins (recency_column pop_ok) = [1, 7/4, 16, 245/2, 400]"
    by code_simp
  have "(if distinct (qcut_bins (recency_column pop_ok))
          then Inr (map (\<lambda>c. Some
             (if of_int (Recency c) \<le> quantile (recency_column pop_ok) (1/4) then 4
              else if of_int (Recency c) \<le> quantile (recency_column pop_ok) (1/2) then 3
              else if of_int (Recency c) \<le> quantile (recency_column pop_ok) (3/4) then 2
              else 1)) pop_ok)
          else Inl BinEdgesNotUnique) = Inr [Some 4, Some 3, Some 2, Some (1::int)]"
    by code_simp
  with R_Score_quartile_buckets [OF ne]
  have "R_Score_column pop_ok = Inr [Some 4, Some 3, Some 2, Some 1]" by simp
  with ne bins show ?thesis by blast
qed

text \<open>
  C3, as the specification states it, promises a score in 1..4 for every customer even
  when the Recency values are too concentrated for four distinct cut points. Four
  customers with the same Recency: the step raises, and no score is assigned.
\<close>

theorem R_Score_concentrated_counterexample:
  "R_Score_column pop_same_recency = Inl BinEdgesNotUnique
   \<and> assign_scores pop_same_recency = Inl BinEdgesNotUnique"
  by code_simp

text \<open>
  C4, as the code has it. The Frequency edges are the smallest Frequency minus one,
  then 1, 2, 3, then the largest Frequency. On a non-empty table whose smallest
  Frequency is at most 1 and whose largest is at least 4 they strictly increase, and
  every customer gets 1 for a Frequency of at most 1, 2 for 2, 3 for 3 and 4 for 4
  or more. On every other non-empty table the step raises ValueError.
\<close>

theorem F_Score_fixed_buckets:
  assumes "tbl \<noteq> []"
  shows "(sorted_wrt (<) (freq_bins (frequency_column tbl)) \<longleftrightarrow>
            Min (set (frequency_column tbl)) \<le> 1 \<and> 4 \<le> Max (set (frequency_column tbl)))
       \<and> F_Score_column tbl =
         (if Min (set (frequency_column tbl)) \<le> 1 \<and> 4 \<le> Max (set (frequency_column tbl))
          then Inr (map (\<lambda>c. Some
                 (if Frequency c \<le> 1 then 1 else if Frequency c = 2 then 2
                  else if Frequency c = 3 then 3 else 4)) tbl)
          else if Min (set (frequency_column tbl)) \<le> 2
                    \<and> 3 \<le> Max (set (frequency_column tbl))
          then Inl BinEdgesNotUnique
          else Inl BinsNotMonotonic)"
proof
  have "sorted_wrt (<) (freq_bins (frequency_column tbl)) \<longleftrightarrow>
      Min (set (frequency_column tbl)) - 1 < 1 \<and> 3 < Max (set (frequency_column tbl))"
    by (auto simp add: freq_bins_def)
  then show "sorted_wrt (<) (freq_bins (frequency_column tbl)) \<longleftrightarrow>
      Min (set (frequency_column tbl)) \<le> 1 \<and> 4 \<le> Max (set (frequency_column tbl))"
    by auto
  show "F_Score_column tbl =
         (if Min (set (frequency_column tbl)) \<le> 1 \<and> 4 \<le> Max (set (frequency_column tbl))
          then Inr (map (\<lambda>c. Some
                 (if Frequency c \<le> 1 then 1 else if Frequency c = 2 then 2
                  else if Frequency c = 3 then 3 else 4)) tbl)
          else if Min (set (frequency_column tbl)) \<le> 2
                    \<and> 3 \<le> Max (set (frequency_column tbl))
          then Inl BinEdgesNotUnique
          else Inl BinsNotMonotonic)"
    by (rule F_Score_column_cases [OF assms])
qed

theorem F_Score_fixed_buckets_witness:
  "pop_ok \<noteq> []
   \<and> freq_bins (frequency_column pop_ok) = [0, 1, 2, 3, 5]
   \<and> F_Score_column pop_ok = Inr [Some 1, Some 2, Some 3, Some 4]"
proof -
  have ne: "pop_ok \<noteq> []" by (simp add: pop_ok_def)
  have bins: "freq_bins (frequency_column pop_ok) = [0, 1, 2, 3, 5]"
    by code_simp
  have "(if Min (set (frequency_column pop_ok)) \<le> 1 \<and> 4 \<le> Max (set (frequency_column pop_ok))
      then Inr (map (\<lambda>c. Some
             (if Frequency c \<le> 1 then 1 else if Frequency c = 2 then 2
              else if Frequency c = 3 then 3 else 4)) pop_ok)
      else if Min (set (frequency_column pop_ok)) \<le> 2
                \<and> 3 \<le> Max (set (frequency_column pop_ok))
      then Inl BinEdgesNotUnique
      else Inl BinsNotMonotonic) = Inr [Some 1, Some 2, Some 3, Some (4::int)]"
    by code_simp
  with conjunct2 [OF F_Score_fixed_buckets [OF ne]]
  have "F_Score_column pop_ok = Inr [Some 1, Some 2, Some 3, Some 4]" by simp
  with ne bins show ?thesis by blast
qed

text \<open>
  C4, as the specification states it, gives the fixed scores on every non-empty
  population. Four customers with Frequency 1, 2, 3 and 3: the edges are 0, 1, 2, 3, 3,
  the step raises, and the customer with Frequency 1 gets no score.
\<close>

theorem F_Score_max3_counterexample:
  "freq_bins (frequency_column pop_max3) = [0, 1, 2, 3, 3]
   \<and> F_Score_column pop_max3 = Inl BinEdgesNotUnique
   \<and> assign_scores pop_max3 = Inl BinEdgesNotUnique"
  by code_simp







text \<open>
  C10. On a non-empty table whose smallest Frequency is at least 2 the Frequency
  edges do not strictly increase (the first is at least the second, which is 1), the
  Frequency binning raises one of the two ValueErrors, and the score assigner fails
  as a whole: no customer of that run gets a score. Such a table exists.
\<close>

theorem freq_bins_min2_fails:
  assumes "tbl \<noteq> []" and "2 \<le> Min (set (frequency_column tbl))"
  shows "\<not> sorted_wrt (<) (freq_bins (frequency_column tbl))
       \<and> (F_Score_column tbl = Inl BinEdgesNotUnique \<or> F_Score_column tbl = Inl BinsNotMonotonic)
       \<and> (\<exists>e. assign_scores tbl = Inl e)"
proof -
  from assms(2) have 1: "\<not> sorted_wrt (<) (freq_bins (frequency_column tbl))"
    by (simp add: freq_bins_def)
  from assms(2) have 2: "F_Score_column tbl = Inl BinEdgesNotUnique \<or> F_Score_column tbl = Inl BinsNotMonotonic"
    unfolding F_Score_column_cases [OF assms(1)] by simp
  then have 3: "\<exists>e. assign_scores tbl = Inl e"
    by (auto simp add: assign_scores_def split: sum.splits)
  from 1 2 3 show ?thesis by blast
qed

theorem freq_bins_min2_fails_witness:
  "pop_min2 \<noteq> []
   \<and> Min (set (frequency_column pop_min2)) = 2
   \<and> freq_bins (frequency_column pop_min2) = [1, 1, 2, 3, 5]
   \<and> F_Score_column pop_min2 = Inl BinEdgesNotUnique
   \<and> (\<exists>e. assign_scores pop_min2 = Inl e)"
proof -
  have ne: "pop_min2 \<noteq> []" by (simp add: pop_min2_def)
  have mn: "Min (set (frequency_column pop_min2)) = 2" by code_simp
  have bins: "freq_bins (frequency_column pop_min2) = [1, 1, 2, 3, 5]" by code_simp
  have f: "F_Score_column pop_min2 = Inl BinEdgesNotUnique" by code_simp
  from mn have "2 \<le> Min (set (frequency_column pop_min2))" by simp
  from freq_bins_min2_fails [OF ne this] have "\<exists>e. assign_scores pop_min2 = Inl e" by blast
  with ne mn bins f show ?thesis by blast
qed

end
